theory Spec2Isabelle
  imports Main "HOL-Library.Word" "HOL-Library.Sublist"
begin

section \<open>Adobe character maps of pdfminer: \<^verbatim>\<open>pdfminer/cmapdb.py\<close>\<close>

text \<open>
  A shallow embedding of the CMap module. Python 2 byte strings are lists of bytes,
  Python integers are unbounded \<open>int\<close>s (the \<open>int\<close>/\<open>long\<close> split of Python 2 is
  not modelled), dictionaries are partial functions, and every exception the module can
  raise is a value of \<open>pyerr\<close> on the left of a sum.
\<close>

subsection \<open>Values\<close>

type_synonym byte = "8 word"

datatype pyerr = TypeError | ValueError | OverflowError | KeyError | IndexError
  | StructError | AssertionError | AttributeError | CMapNotFound

text \<open>
  The objects the tokenizer hands over (\<^verbatim>\<open>psparser\<close>, outside this module). A real number
  carries no payload: no handler of this module looks inside one.
\<close>

datatype psobj = PSInt int | PSBool bool | PSReal | PSStr "byte list" | PSLiteral string
  | PSKeyword string | PSList "psobj list"

text \<open>
  The values of the CID-to-Unicode table are Python \<open>unicode\<close> objects. The table only
  stores them, so the three conversions of \<^verbatim>\<open>add_cid2unichr\<close> are kept apart by
  constructor: \<open>Unichr n\<close> is \<^verbatim>\<open>unichr(n)\<close>, \<open>Utf16be bs\<close> is
  \<^verbatim>\<open>unicode(bs, 'UTF-16BE', 'ignore')\<close>, and \<open>Glyph u\<close> is an entry \<open>u\<close> of a glyph list.
\<close>

datatype utext = Unichr int | Utf16be "byte list" | Glyph "int list"

subsection \<open>The Unicode block table\<close>

text \<open>
  \<^verbatim>\<open>unicode_charset_map\<close>, rows in the order of the source. The third component of a
  row is a display label that the code never reads; it is left out. The row
  \<open>(0x07C0, 0x077F)\<close> is empty, as in the source.
\<close>

definition unicode_charset_map :: "(int \<times> int) list" where
  "unicode_charset_map = [
    (0x0000, 0x007F), (0x0080, 0x00FF), (0x0100, 0x017F), (0x0180, 0x024F),
    (0x0250, 0x02AF), (0x02B0, 0x02FF), (0x0300, 0x036F), (0x0370, 0x03FF),
    (0x0400, 0x04FF), (0x0500, 0x052F), (0x0530, 0x058F), (0x0590, 0x05FF),
    (0x0600, 0x06FF), (0x0700, 0x074F), (0x0750, 0x077F), (0x0780, 0x07BF),
    (0x07C0, 0x077F), (0x0800, 0x085F), (0x0860, 0x087F), (0x0880, 0x08AF),
    (0x0900, 0x097F), (0x0980, 0x09FF), (0x0A00, 0x0A7F), (0x0A80, 0x0AFF),
    (0x0B00, 0x0B7F), (0x0B80, 0x0BFF), (0x0C00, 0x0C7F), (0x0C80, 0x0CFF),
    (0x0D00, 0x0D7F), (0x0D80, 0x0DFF), (0x0E00, 0x0E7F), (0x0E80, 0x0EFF),
    (0x0F00, 0x0FFF), (0x1000, 0x109F), (0x10A0, 0x10FF), (0x1100, 0x11FF),
    (0x1200, 0x137F), (0x1380, 0x139F), (0x13A0, 0x13FF), (0x1400, 0x167F),
    (0x1680, 0x169F), (0x16A0, 0x16FF), (0x1700, 0x171F), (0x1720, 0x173F),
    (0x1740, 0x175F), (0x1760, 0x177F), (0x1780, 0x17FF), (0x1800, 0x18AF),
    (0x18B0, 0x18FF), (0x1900, 0x194F), (0x1950, 0x197F), (0x1980, 0x19DF),
    (0x19E0, 0x19FF), (0x1A00, 0x1A1F), (0x1A20, 0x1A5F), (0x1A80, 0x1AEF),
    (0x1B00, 0x1B7F), (0x1B80, 0x1BB0), (0x1BC0, 0x1BFF), (0x1C00, 0x1C4F),
    (0x1C50, 0x1C7F), (0x1C80, 0x1CDF), (0x1D00, 0x1D7F), (0x1D80, 0x1DBF),
    (0x1DC0, 0x1DFF), (0x1E00, 0x1EFF), (0x1F00, 0x1FFF), (0x2000, 0x206F),
    (0x2070, 0x209F), (0x20A0, 0x20CF), (0x20D0, 0x20FF), (0x2100, 0x214F),
    (0x2150, 0x218F), (0x2190, 0x21FF), (0x2200, 0x22FF), (0x2300, 0x23FF),
    (0x2400, 0x243F), (0x2440, 0x245F), (0x2460, 0x24FF), (0x2500, 0x257F),
    (0x2580, 0x259F), (0x25A0, 0x25FF), (0x2600, 0x26FF), (0x2700, 0x27BF),
    (0x27C0, 0x27EF), (0x27F0, 0x27FF), (0x2800, 0x28FF), (0x2900, 0x297F),
    (0x2980, 0x29FF), (0x2A00, 0x2AFF), (0x2B00, 0x2BFF), (0x2C00, 0x2C5F),
    (0x2C60, 0x2C7F), (0x2C80, 0x2CFF), (0x2D00, 0x2D2F), (0x2D30, 0x2D7F),
    (0x2D80, 0x2DDF), (0x2E00, 0x2E7F), (0x2E80, 0x2EFF), (0x2F00, 0x2FDF),
    (0x2FF0, 0x2FFF), (0x3000, 0x303F), (0x3040, 0x309F), (0x30A0, 0x30FF),
    (0x3100, 0x312F), (0x3130, 0x318F), (0x3190, 0x319F), (0x31A0, 0x31BF),
    (0x31C0, 0x31EF), (0x31F0, 0x31FF), (0x3200, 0x32FF), (0x3300, 0x33FF),
    (0x3400, 0x4DBF), (0x4DC0, 0x4DFF), (0x4E00, 0x9FBF), (0xA000, 0xA48F),
    (0xA490, 0xA4CF), (0xA500, 0xA61F), (0xA660, 0xA6FF), (0xA700, 0xA71F),
    (0xA720, 0xA7FF), (0xA800, 0xA82F), (0xA840, 0xA87F), (0xA880, 0xA8DF),
    (0xA900, 0xA97F), (0xA980, 0xA9DF), (0xAA00, 0xAA3F), (0xAA40, 0xAA6F),
    (0xAA80, 0xAADF), (0xAB00, 0xAB5F), (0xAB80, 0xABA0), (0xAC00, 0xD7AF),
    (0xD800, 0xDBFF), (0xDC00, 0xDFFF), (0xE000, 0xF8FF), (0xF900, 0xFAFF),
    (0xFB00, 0xFB4F), (0xFB50, 0xFDFF), (0xFE00, 0xFE0F), (0xFE10, 0xFE1F),
    (0xFE20, 0xFE2F), (0xFE30, 0xFE4F), (0xFE50, 0xFE6F), (0xFE70, 0xFEFF),
    (0xFF00, 0xFFEF), (0xFFF0, 0xFFFF)]"

fun charset_lookup :: "(int \<times> int) list \<Rightarrow> int \<Rightarrow> (int \<times> int) option" where
  "charset_lookup [] code = None"
| "charset_lookup (item # items) code =
     (if fst item \<le> code \<and> code \<le> snd item then Some item else charset_lookup items code)"

definition get_unicode_charset_entry :: "int \<Rightarrow> (int \<times> int) option" where
  "get_unicode_charset_entry code = charset_lookup unicode_charset_map code"

subsection \<open>The code-to-CID trie\<close>

text \<open>
  \<^verbatim>\<open>code2cid\<close> is a dictionary keyed by byte values whose values are either integers
  (a CID leaf) or dictionaries of the same kind.
\<close>

datatype trie = Leaf int | Node "byte \<Rightarrow> trie option"

type_synonym dict = "byte \<Rightarrow> trie option"

text \<open>
  \<^verbatim>\<open>CMap.decode\<close>: the loop over the bytes of \<open>code\<close>, with the current dictionary
  \<open>d\<close> as loop state and the emitted CIDs as result. \<open>d\<close> is always a dictionary: it is
  the root, or a value that has just been tested not to be an integer.
\<close>

fun decode_loop :: "dict \<Rightarrow> dict \<Rightarrow> byte list \<Rightarrow> int list" where
  "decode_loop root d [] = []"
| "decode_loop root d (c # code) =
     (case d c of
        Some (Leaf cid) \<Rightarrow> cid # decode_loop root root code
      | Some (Node d') \<Rightarrow> decode_loop root d' code
      | None \<Rightarrow> decode_loop root root code)"

definition CMap_decode :: "dict \<Rightarrow> byte list \<Rightarrow> int list" where
  "CMap_decode code2cid code = decode_loop code2cid code2cid code"

text \<open>The dictionary held in \<open>d\<close> after the loop has consumed \<open>code\<close>.\<close>

fun decode_state :: "dict \<Rightarrow> dict \<Rightarrow> byte list \<Rightarrow> dict" where
  "decode_state root d [] = d"
| "decode_state root d (c # code) =
     (case d c of
        Some (Leaf cid) \<Rightarrow> decode_state root root code
      | Some (Node d') \<Rightarrow> decode_state root d' code
      | None \<Rightarrow> decode_state root root code)"

subsection \<open>The identity map\<close>

text \<open>
  \<^verbatim>\<open>struct.unpack('>%dH' % n, code)\<close> reads \<open>n\<close> big-endian 16-bit values and raises
  \<^verbatim>\<open>struct.error\<close> unless \<open>code\<close> is exactly \<open>2 * n\<close> bytes long.
\<close>

fun be16_values :: "byte list \<Rightarrow> int list" where
  "be16_values (hi # lo # rest) = (256 * uint hi + uint lo) # be16_values rest"
| "be16_values rest = []"

definition struct_unpack_H :: "nat \<Rightarrow> byte list \<Rightarrow> pyerr + int list" where
  "struct_unpack_H n code =
     (if length code = 2 * n then Inr (be16_values code) else Inl StructError)"

definition IdentityCMap_decode :: "byte list \<Rightarrow> pyerr + int list" where
  "IdentityCMap_decode code =
     (let n = length code div 2 in
      if n \<noteq> 0 then struct_unpack_H n code else Inr [])"

subsection \<open>Inserting a code: \<^verbatim>\<open>FileCMap.add_code2cid\<close>\<close>

text \<open>
  The source walks down the nested dictionaries along \<open>code[:-1]\<close>, creating the missing
  ones, and then stores \<open>cid\<close> under the last byte. The model rebuilds the dictionaries on
  the way back. When the walk steps onto an integer leaf, the next operation on it
  (\<^verbatim>\<open>c in d\<close>, or the final \<^verbatim>\<open>d[c] = cid\<close>) raises \<^verbatim>\<open>TypeError\<close>; an empty
  \<open>code\<close> fails at \<^verbatim>\<open>code[-1]\<close> with \<^verbatim>\<open>IndexError\<close>. Nothing has been written when either
  happens.
\<close>

fun add_code2cid :: "dict \<Rightarrow> byte list \<Rightarrow> int \<Rightarrow> pyerr + dict" where
  "add_code2cid d [] cid = Inl IndexError"
| "add_code2cid d [c] cid = Inr (d(c \<mapsto> Leaf cid))"
| "add_code2cid d (c # c' # code) cid =
     (case d c of
        Some (Leaf n) \<Rightarrow> Inl TypeError
      | Some (Node d') \<Rightarrow>
          (case add_code2cid d' (c' # code) cid of
             Inl err \<Rightarrow> Inl err
           | Inr t \<Rightarrow> Inr (d(c \<mapsto> Node t)))
      | None \<Rightarrow>
          (case add_code2cid Map.empty (c' # code) cid of
             Inl err \<Rightarrow> Inl err
           | Inr t \<Rightarrow> Inr (d(c \<mapsto> Node t))))"

text \<open>What a dictionary holds at the end of the path spelled by a code.\<close>

fun code_value :: "dict \<Rightarrow> byte list \<Rightarrow> trie option" where
  "code_value d [] = None"
| "code_value d [c] = d c"
| "code_value d (c # c' # code) =
     (case d c of Some (Node d') \<Rightarrow> code_value d' (c' # code) | _ \<Rightarrow> None)"

subsection \<open>Merging a trie: \<^verbatim>\<open>CMap.use_cmap\<close>\<close>

text \<open>
  The inner function \<^verbatim>\<open>copy(dst, src)\<close> assigns \<open>dst[k]\<close> for every key \<open>k\<close> of \<open>src\<close>: the
  value itself when it is an integer, and otherwise a new dictionary filled by
  \<^verbatim>\<open>copy({}, v)\<close>. \<open>installed v\<close> is the value that ends up at \<open>dst[k]\<close>.
\<close>

primrec installed :: "trie \<Rightarrow> trie" where
  "installed (Leaf v) = Leaf v"
| "installed (Node s) = Node (\<lambda>k. map_option installed (s k))"

definition copy :: "dict \<Rightarrow> dict \<Rightarrow> dict" where
  "copy dst src = (\<lambda>k. case src k of None \<Rightarrow> dst k | Some v \<Rightarrow> Some (installed v))"

subsection \<open>The stores\<close>

type_synonym bfitem = "int \<times> int \<times> int \<times> int"

type_synonym table = "int \<Rightarrow> utext option"

text \<open>
  The classes of the module that are instantiated: \<^verbatim>\<open>IdentityCMap\<close> (with its
  \<^verbatim>\<open>WMode\<close>), \<^verbatim>\<open>PyCMap\<close> and \<^verbatim>\<open>FileCMap\<close> (both a \<^verbatim>\<open>CMap\<close> with \<^verbatim>\<open>code2cid\<close>), and
  \<^verbatim>\<open>FileUnicodeMap\<close> (with \<^verbatim>\<open>cid2unichr\<close> and \<^verbatim>\<open>bfranges\<close>). The attribute dictionary
  is not modelled beyond that.
\<close>

datatype cmapobj = IdentityCMap int | PyCMap dict | FileCMap dict
  | FileUnicodeMap table "bfitem list"

text \<open>\<^verbatim>\<open>use_cmap\<close> of a \<^verbatim>\<open>CMap\<close> asserts that its argument is a \<^verbatim>\<open>CMap\<close>; the base
  class method, which \<^verbatim>\<open>FileUnicodeMap\<close> and \<^verbatim>\<open>IdentityCMap\<close> inherit, does nothing.\<close>

fun use_cmap :: "cmapobj \<Rightarrow> cmapobj \<Rightarrow> pyerr + cmapobj" where
  "use_cmap (FileCMap dst) (FileCMap src) = Inr (FileCMap (copy dst src))"
| "use_cmap (FileCMap dst) (PyCMap src) = Inr (FileCMap (copy dst src))"
| "use_cmap (FileCMap dst) other = Inl AssertionError"
| "use_cmap (PyCMap dst) (FileCMap src) = Inr (PyCMap (copy dst src))"
| "use_cmap (PyCMap dst) (PyCMap src) = Inr (PyCMap (copy dst src))"
| "use_cmap (PyCMap dst) other = Inl AssertionError"
| "use_cmap self other = Inr self"

text \<open>\<^verbatim>\<open>decode\<close> as a method: the generator of \<^verbatim>\<open>CMap\<close>, the unpacking of
  \<^verbatim>\<open>IdentityCMap\<close>; a Unicode map has no such method.\<close>

fun decode :: "cmapobj \<Rightarrow> byte list \<Rightarrow> pyerr + int list" where
  "decode (IdentityCMap wmode) code = IdentityCMap_decode code"
| "decode (PyCMap d) code = Inr (CMap_decode d code)"
| "decode (FileCMap d) code = Inr (CMap_decode d code)"
| "decode (FileUnicodeMap t bs) code = Inl AttributeError"

text \<open>
  \<^verbatim>\<open>CMapDB.get_cmap\<close>. The cache is a dictionary from names to stores. \<^verbatim>\<open>_load_data\<close>
  reads the file system; it is the parameter \<open>load_data\<close>, which yields the unpickled
  \<^verbatim>\<open>CODE2CID\<close> or nothing when no directory has the file.
\<close>

definition get_cmap ::
  "(string \<Rightarrow> dict option) \<Rightarrow> (string \<Rightarrow> cmapobj option) \<Rightarrow> string
     \<Rightarrow> (pyerr + cmapobj) \<times> (string \<Rightarrow> cmapobj option)" where
  "get_cmap load_data cache name =
     (if name = ''Identity-H'' then (Inr (IdentityCMap 0), cache)
      else if name = ''Identity-V'' then (Inr (IdentityCMap 1), cache)
      else (case cache name of
              Some cmap \<Rightarrow> (Inr cmap, cache)
            | None \<Rightarrow>
                (case load_data name of
                   None \<Rightarrow> (Inl CMapNotFound, cache)
                 | Some code2cid \<Rightarrow>
                     (Inr (PyCMap code2cid), cache(name \<mapsto> PyCMap code2cid)))))"

subsection \<open>Helpers from outside the module\<close>

text \<open>A \<^verbatim>\<open>for\<close> loop whose body may raise: the first exception ends the loop.\<close>

fun for_each :: "('a \<Rightarrow> 's \<Rightarrow> pyerr + 's) \<Rightarrow> 'a list \<Rightarrow> 's \<Rightarrow> pyerr + 's" where
  "for_each body [] st = Inr st"
| "for_each body (x # xs) st =
     (case body x st of Inl err \<Rightarrow> Inl err | Inr st' \<Rightarrow> for_each body xs st')"

text \<open>\<^verbatim>\<open>xrange(n)\<close> as the list of its values; empty when \<open>n \<le> 0\<close>.\<close>

definition xrange :: "int \<Rightarrow> int list" where
  "xrange n = map int [0..<nat n]"

text \<open>The slices \<^verbatim>\<open>s[-n:]\<close> (for the constant 4 and for a length \<open>n\<close> that may be 0, where
  the slice is the whole string) and \<^verbatim>\<open>s[:-4]\<close>.\<close>

definition py_suffix :: "nat \<Rightarrow> 'a list \<Rightarrow> 'a list" where
  "py_suffix n s = (if n = 0 then s else drop (length s - n) s)"

definition py_all_but_last4 :: "'a list \<Rightarrow> 'a list" where
  "py_all_but_last4 s = take (length s - 4) s"

text \<open>Modelled from the spec: \<^verbatim>\<open>utils.nunpack\<close>, which is not among the sources. The spec
  calls its result the numeric value of a byte string of up to four bytes (big-endian, 0
  for the empty string). Longer strings are rejected here, so that no result below rests
  on a value for them.\<close>

definition be_value :: "byte list \<Rightarrow> int" where
  "be_value s = foldl (\<lambda>acc b. 256 * acc + uint b) 0 s"

definition nunpack :: "byte list \<Rightarrow> pyerr + int" where
  "nunpack s = (if length s \<le> 4 then Inr (be_value s) else Inl TypeError)"

text \<open>Modelled from the spec: \<^verbatim>\<open>utils.choplist\<close>, which is not among the sources. The spec
  has the operands drained in groups of three or in pairs; an incomplete last group is
  not a group.\<close>

fun choplist3 :: "'a list \<Rightarrow> ('a \<times> 'a \<times> 'a) list" where
  "choplist3 (a # b # c # rest) = (a, b, c) # choplist3 rest"
| "choplist3 rest = []"

fun choplist2 :: "'a list \<Rightarrow> ('a \<times> 'a) list" where
  "choplist2 (a # b # rest) = (a, b) # choplist2 rest"
| "choplist2 rest = []"

text \<open>\<^verbatim>\<open>struct.pack('>L', v)\<close>: four bytes, most significant first; \<^verbatim>\<open>struct.error\<close>
  outside \<open>0 \<dots> 2^32 - 1\<close>.\<close>

definition be_bytes4 :: "int \<Rightarrow> byte list" where
  "be_bytes4 v = [word_of_int (v div 2 ^ 24), word_of_int (v div 2 ^ 16),
                  word_of_int (v div 2 ^ 8), word_of_int v]"

definition struct_pack_L :: "int \<Rightarrow> pyerr + byte list" where
  "struct_pack_L v =
     (if 0 \<le> v \<and> v < 2 ^ 32 then Inr (be_bytes4 v) else Inl StructError)"

text \<open>\<^verbatim>\<open>prefix + struct.pack('>L', v)[-vlen:]\<close>, as both range handlers build it.\<close>

definition packed_code :: "byte list \<Rightarrow> nat \<Rightarrow> int \<Rightarrow> pyerr + byte list" where
  "packed_code pfx vlen v =
     (case struct_pack_L v of
        Inl err \<Rightarrow> Inl err
      | Inr bs \<Rightarrow> Inr (pfx @ py_suffix vlen bs))"


text \<open>\<^verbatim>\<open>unichr\<close>, for an interpreter with \<^verbatim>\<open>sys.maxunicode = 0x10FFFF\<close>. The builtin takes
  its argument as a C \<open>int\<close>: a value that does not fit one raises \<^verbatim>\<open>OverflowError\<close>, a
  value that fits but is no code point raises \<^verbatim>\<open>ValueError\<close>.\<close>

definition unichr :: "int \<Rightarrow> pyerr + utext" where
  "unichr code =
     (if - (2 ^ 31) \<le> code \<and> code < 2 ^ 31
      then (if 0 \<le> code \<and> code \<le> 0x10FFFF then Inr (Unichr code) else Inl ValueError)
      else Inl OverflowError)"

subsection \<open>Glyph names: \<^verbatim>\<open>encodingdb.name2unicode\<close>\<close>

definition glyphname2unicode_ext :: "(string \<times> int) list" where
  "glyphname2unicode_ext = [
    (''oneinv'', 0x278A), (''twoinv'', 0x278B), (''threeinv'', 0x278C),
    (''fourinv'', 0x278D), (''fiveinv'', 0x278E), (''sixinv'', 0x278F),
    (''seveninv'', 0x2790), (''eightinv'', 0x2791), (''nineinv'', 0x2792),
    (''teninv'', 0x2793),
    (''onesansinv'', 0x278A), (''twosansinv'', 0x278B), (''threesansinv'', 0x278C),
    (''foursansinv'', 0x278D), (''fivesansinv'', 0x278E), (''sixsansinv'', 0x278F),
    (''sevensansinv'', 0x2790), (''eightsansinv'', 0x2791), (''ninesansinv'', 0x2792),
    (''tensansinv'', 0x2793),
    (''handbckptright'', 0x261E), (''xrhombus'', 0x2756), (''boxcheckbld'', 0x2611)]"

definition is_digit :: "char \<Rightarrow> bool" where
  "is_digit c = (c \<in> set ''0123456789'')"

text \<open>The first match of the pattern \<^verbatim>\<open>[0-9]+\<close>, and \<^verbatim>\<open>int\<close> of it.\<close>

definition first_digits :: "string \<Rightarrow> string" where
  "first_digits name = takeWhile is_digit (dropWhile (\<lambda>c. \<not> is_digit c) name)"

definition int_of_digits :: "string \<Rightarrow> int" where
  "int_of_digits ds = foldl (\<lambda>acc c. 10 * acc + (of_char c - 48)) 0 ds"

text \<open>The Adobe glyph list (\<^verbatim>\<open>glyphlist.glyphname2unicode\<close>) is not among the sources; it
  is the parameter \<open>glyphs\<close>.\<close>

definition name2unicode :: "(string \<Rightarrow> int list option) \<Rightarrow> string \<Rightarrow> pyerr + utext" where
  "name2unicode glyphs name =
     (case glyphs name of
        Some u \<Rightarrow> Inr (Glyph u)
      | None \<Rightarrow>
          (case map_of glyphname2unicode_ext name of
             Some n \<Rightarrow> Inr (Unichr n)
           | None \<Rightarrow>
               (if first_digits name = [] then Inl KeyError
                else unichr (int_of_digits (first_digits name)))))"

subsection \<open>The CID-to-Unicode table\<close>

text \<open>\<^verbatim>\<open>FileUnicodeMap.add_cid2unichr\<close>, on the table.\<close>

fun add_cid2unichr ::
  "(string \<Rightarrow> int list option) \<Rightarrow> table \<Rightarrow> int \<Rightarrow> psobj \<Rightarrow> pyerr + table" where
  "add_cid2unichr glyphs t cid (PSLiteral name) =
     (case name2unicode glyphs name of Inl err \<Rightarrow> Inl err | Inr u \<Rightarrow> Inr (t(cid \<mapsto> u)))"
| "add_cid2unichr glyphs t cid (PSStr code) = Inr (t(cid \<mapsto> Utf16be code))"
| "add_cid2unichr glyphs t cid (PSInt code) =
     (case unichr code of Inl err \<Rightarrow> Inl err | Inr u \<Rightarrow> Inr (t(cid \<mapsto> u)))"
| "add_cid2unichr glyphs t cid (PSBool b) =
     (case unichr (if b then 1 else 0) of Inl err \<Rightarrow> Inl err | Inr u \<Rightarrow> Inr (t(cid \<mapsto> u)))"
| "add_cid2unichr glyphs t cid other = Inl TypeError"

text \<open>The two insertion methods as the interpreter calls them on its target: each class
  has the real method or the empty one of \<^verbatim>\<open>CMapBase\<close>.\<close>

fun cmap_add_code2cid :: "cmapobj \<Rightarrow> byte list \<Rightarrow> int \<Rightarrow> pyerr + cmapobj" where
  "cmap_add_code2cid (FileCMap d) code cid =
     (case add_code2cid d code cid of Inl err \<Rightarrow> Inl err | Inr d' \<Rightarrow> Inr (FileCMap d'))"
| "cmap_add_code2cid other code cid = Inr other"

fun cmap_add_cid2unichr ::
  "(string \<Rightarrow> int list option) \<Rightarrow> cmapobj \<Rightarrow> int \<Rightarrow> psobj \<Rightarrow> pyerr + cmapobj" where
  "cmap_add_cid2unichr glyphs (FileUnicodeMap t bs) cid code =
     (case add_cid2unichr glyphs t cid code of
        Inl err \<Rightarrow> Inl err
      | Inr t' \<Rightarrow> Inr (FileUnicodeMap t' bs))"
| "cmap_add_cid2unichr glyphs other cid code = Inr other"

subsection \<open>The interpreter: \<^verbatim>\<open>CMapParser\<close>\<close>

text \<open>
  The interpreter's own fields. The operand stack belongs to the tokenizer; each handler
  below is the branch of \<^verbatim>\<open>do_keyword\<close> for one keyword, applied to the objects that
  \<^verbatim>\<open>popall\<close> returned.
\<close>

record parser =
  cmap :: cmapobj
  cmap_bfrange_items :: "bfitem list"
  drop_bfrange_items :: "bfitem list"

definition verify_char_set :: "int \<Rightarrow> int \<Rightarrow> int \<Rightarrow> int option" where
  "verify_char_set s1 e1 base =
     (case get_unicode_charset_entry base of
        Some item \<Rightarrow> (if snd item - base + s1 < e1 then Some s1 else Some e1)
      | None \<Rightarrow> None)"



text \<open>\<^verbatim>\<open>endcidchar\<close>: the pair is named \<open>(cid, code)\<close> in the source and both must be
  strings.\<close>

definition cidchar_pair :: "psobj \<times> psobj \<Rightarrow> cmapobj \<Rightarrow> pyerr + cmapobj" where
  "cidchar_pair g cm =
     (case g of
        (PSStr cid, PSStr code) \<Rightarrow>
          (case nunpack cid of
             Inl err \<Rightarrow> Inl err
           | Inr n \<Rightarrow> cmap_add_code2cid cm code n)
      | _ \<Rightarrow> Inr cm)"

definition do_ENDCIDCHAR :: "parser \<Rightarrow> psobj list \<Rightarrow> pyerr + parser" where
  "do_ENDCIDCHAR p objs =
     (case for_each cidchar_pair (choplist2 objs) (cmap p) of
        Inl err \<Rightarrow> Inl err
      | Inr cm \<Rightarrow> Inr (p\<lparr>cmap := cm\<rparr>))"

text \<open>\<^verbatim>\<open>endbfrange\<close>. In the list form \<^verbatim>\<open>code[i]\<close> raises \<^verbatim>\<open>IndexError\<close> past the end of
  the list. In the base form \<open>code\<close> is sliced, which raises \<^verbatim>\<open>TypeError\<close> for anything
  but a string.\<close>

definition bfrange_list_form ::
  "(string \<Rightarrow> int list option) \<Rightarrow> int \<Rightarrow> int \<Rightarrow> psobj list \<Rightarrow> cmapobj \<Rightarrow> pyerr + cmapobj" where
  "bfrange_list_form glyphs s1 e1 code cm =
     for_each
       (\<lambda>i cm'. if nat i < length code
                 then cmap_add_cid2unichr glyphs cm' (s1 + i) (code ! nat i)
                 else Inl IndexError)
       (xrange (e1 - s1 + 1)) cm"

definition bfrange_base_form ::
  "(string \<Rightarrow> int list option) \<Rightarrow> int \<Rightarrow> int \<Rightarrow> byte list \<Rightarrow> parser \<Rightarrow> pyerr + parser" where
  "bfrange_base_form glyphs s1 e1 code p =
     (case nunpack (py_suffix 4 code) of
        Inl err \<Rightarrow> Inl err
      | Inr base \<Rightarrow>
          (case verify_char_set s1 e1 base of
             Some e2 \<Rightarrow>
               if e2 \<noteq> 0 then
                 (case for_each
                         (\<lambda>i cm'.
                            case packed_code (py_all_but_last4 code)
                                   (length (py_suffix 4 code)) (base + i) of
                              Inl err \<Rightarrow> Inl err
                            | Inr x \<Rightarrow> cmap_add_cid2unichr glyphs cm' (s1 + i) (PSStr x))
                         (xrange (e2 - s1 + 1)) (cmap p) of
                    Inl err \<Rightarrow> Inl err
                  | Inr cm \<Rightarrow>
                      Inr (p\<lparr>cmap := cm,
                             cmap_bfrange_items :=
                               cmap_bfrange_items p @ [(s1, e2, base, base - s1)]\<rparr>))
               else
                 Inr (p\<lparr>drop_bfrange_items :=
                          drop_bfrange_items p @ [(s1, e1, base, base - s1)]\<rparr>)
           | None \<Rightarrow>
               Inr (p\<lparr>drop_bfrange_items :=
                        drop_bfrange_items p @ [(s1, e1, base, base - s1)]\<rparr>)))"

definition bfrange_group ::
  "(string \<Rightarrow> int list option) \<Rightarrow> psobj \<times> psobj \<times> psobj \<Rightarrow> parser \<Rightarrow> pyerr + parser" where
  "bfrange_group glyphs g p =
     (case g of
        (PSStr s, PSStr e, code) \<Rightarrow>
          if length s \<noteq> length e then Inr p
          else
            (case nunpack s of
               Inl err \<Rightarrow> Inl err
             | Inr s1 \<Rightarrow>
                 (case nunpack e of
                    Inl err \<Rightarrow> Inl err
                  | Inr e1 \<Rightarrow>
                      (case code of
                         PSList items \<Rightarrow>
                           (case bfrange_list_form glyphs s1 e1 items (cmap p) of
                              Inl err \<Rightarrow> Inl err
                            | Inr cm \<Rightarrow> Inr (p\<lparr>cmap := cm\<rparr>))
                       | PSStr bs \<Rightarrow> bfrange_base_form glyphs s1 e1 bs p
                       | _ \<Rightarrow> Inl TypeError)))
      | _ \<Rightarrow> Inr p)"

definition do_ENDBFRANGE ::
  "(string \<Rightarrow> int list option) \<Rightarrow> parser \<Rightarrow> psobj list \<Rightarrow> pyerr + parser" where
  "do_ENDBFRANGE glyphs p objs = for_each (bfrange_group glyphs) (choplist3 objs) p"

subsection \<open>The fixup pass\<close>

text \<open>The components of an entry \<open>(cid_start, cid_end, unicode_base, offset)\<close>.\<close>

fun item0 :: "bfitem \<Rightarrow> int" where "item0 (a, b, c, d) = a"
fun item1 :: "bfitem \<Rightarrow> int" where "item1 (a, b, c, d) = b"
fun item2 :: "bfitem \<Rightarrow> int" where "item2 (a, b, c, d) = c"
fun item3 :: "bfitem \<Rightarrow> int" where "item3 (a, b, c, d) = d"

text \<open>
  \<^verbatim>\<open>fill_cmap_by_ranges\<close>. The loop state is \<open>(result_bfranges, last_merged, prev)\<close>
  and the target store; \<open>fill_step\<close> is the loop body. \<open>last_merged\<close> is set whenever
  \<open>prev\<close> is; the two places where it would still be \<open>None\<close> (a subscript of \<open>None\<close>
  when merging, \<open>None\<close> appended to the result otherwise) are never reached and are
  marked \<^verbatim>\<open>TypeError\<close>.
\<close>

type_synonym fill_state = "bfitem list \<times> bfitem option \<times> bfitem option"

definition fill_step ::
  "(string \<Rightarrow> int list option) \<Rightarrow> bool \<Rightarrow> bfitem \<Rightarrow> fill_state \<times> cmapobj
     \<Rightarrow> pyerr + fill_state \<times> cmapobj" where
  "fill_step glyphs add_to_map item st =
     (case st of ((result, last_merged, prev), cm) \<Rightarrow>
        (case prev of
           Some pv \<Rightarrow>
             if item2 item - item0 item = item2 pv - item0 pv then
               (case (if add_to_map
                      then for_each
                             (\<lambda>i cm'. cmap_add_cid2unichr glyphs cm' i
                                        (PSInt (i + (item2 item - item0 item))))
                             [item1 pv + 1 .. item0 item - 1] cm
                      else Inr cm) of
                  Inl err \<Rightarrow> Inl err
                | Inr cm' \<Rightarrow>
                    (case last_merged of
                       None \<Rightarrow> Inl TypeError
                     | Some lm \<Rightarrow>
                         Inr ((result,
                               Some (item0 lm, item1 item, item2 lm, item2 item - item0 item),
                               Some item), cm')))
             else
               (case last_merged of
                  None \<Rightarrow> Inl TypeError
                | Some lm \<Rightarrow> Inr ((result @ [lm], Some item, Some item), cm))
         | None \<Rightarrow> Inr ((result, Some item, Some item), cm)))"

definition fill_cmap_by_ranges ::
  "(string \<Rightarrow> int list option) \<Rightarrow> cmapobj \<Rightarrow> bfitem list \<Rightarrow> bool
     \<Rightarrow> pyerr + bfitem list \<times> cmapobj" where
  "fill_cmap_by_ranges glyphs cm bfranges add_to_map =
     (case for_each (fill_step glyphs add_to_map) (sort_key item0 bfranges)
             (([], None, None), cm) of
        Inl err \<Rightarrow> Inl err
      | Inr ((result, last_merged, prev), cm') \<Rightarrow>
          (case last_merged of
             Some lm \<Rightarrow> Inr (result @ [lm], cm')
           | None \<Rightarrow> Inr (result, cm')))"

text \<open>\<^verbatim>\<open>is_subset_of_ranges\<close>: the first entry other than \<open>rng\<close> (the
  parameter \<^verbatim>\<open>range\<close> of the source) whose Unicode interval contains that of \<open>rng\<close>.\<close>

fun is_subset_of_ranges :: "bfitem list \<Rightarrow> bfitem \<Rightarrow> bfitem option" where
  "is_subset_of_ranges [] rng = None"
| "is_subset_of_ranges (item # bfranges) rng =
     (if item = rng then is_subset_of_ranges bfranges rng
      else if item2 rng \<ge> item2 item
              \<and> item2 rng + item1 rng - item0 rng \<le> item2 item + item1 item - item0 item
           then Some item
      else is_subset_of_ranges bfranges rng)"

text \<open>Assigning \<^verbatim>\<open>self.cmap.bfranges\<close>. On a store that is not a \<^verbatim>\<open>FileUnicodeMap\<close> this
  creates an attribute that nothing reads.\<close>

fun set_bfranges :: "cmapobj \<Rightarrow> bfitem list \<Rightarrow> cmapobj" where
  "set_bfranges (FileUnicodeMap t old) bs = FileUnicodeMap t bs"
| "set_bfranges other bs = other"

text \<open>\<^verbatim>\<open>fixup_cmaps\<close>; the warning it logs about dropped entries changes nothing.\<close>

definition fixup_cmaps :: "(string \<Rightarrow> int list option) \<Rightarrow> parser \<Rightarrow> pyerr + parser" where
  "fixup_cmaps glyphs p =
     (if cmap_bfrange_items p = [] then Inr p
      else
        (case fill_cmap_by_ranges glyphs (cmap p) (cmap_bfrange_items p) True of
           Inl err \<Rightarrow> Inl err
         | Inr (merged_bfranges, cm) \<Rightarrow>
             if length merged_bfranges = length (cmap_bfrange_items p)
             then Inr (p\<lparr>cmap := cm\<rparr>)
             else
               (let results_bfranges =
                      filter (\<lambda>item. is_subset_of_ranges merged_bfranges item = None)
                        merged_bfranges
                in
                (case (if length results_bfranges \<noteq> length merged_bfranges
                       then fill_cmap_by_ranges glyphs cm results_bfranges True
                       else Inr (results_bfranges, cm)) of
                   Inl err \<Rightarrow> Inl err
                 | Inr (final_bfranges, cm') \<Rightarrow>
                     Inr (p\<lparr>cmap := set_bfranges cm' (sort_key item0 final_bfranges),
                            cmap_bfrange_items := []\<rparr>)))))"

subsection \<open>Extrapolation: \<^verbatim>\<open>FileUnicodeMap.get_unichr\<close>\<close>

definition is_same_charset :: "int \<Rightarrow> bfitem \<Rightarrow> bool" where
  "is_same_charset cid bfrangeitem =
     (case get_unicode_charset_entry (cid + item3 bfrangeitem) of
        Some charset \<Rightarrow> fst charset \<le> item2 bfrangeitem \<and> item2 bfrangeitem \<le> snd charset
      | None \<Rightarrow> False)"

text \<open>The loop of \<^verbatim>\<open>get_nearest_bfrange\<close>: \<open>Some r\<close> when the loop returns \<open>r\<close> (an
  entry or \<open>None\<close>), \<open>None\<close> when it runs to the end of the list.\<close>

fun nearest_scan :: "int \<Rightarrow> bfitem option \<Rightarrow> bfitem list \<Rightarrow> bfitem option option" where
  "nearest_scan cid prev [] = None"
| "nearest_scan cid prev (item # items) =
     (if cid < item0 item then
        (let same_cur = is_same_charset cid item;
             same_prev = (case prev of None \<Rightarrow> False | Some pv \<Rightarrow> is_same_charset cid pv)
         in if same_prev \<and> same_cur then
              (case prev of
                 Some pv \<Rightarrow> Some (if cid - item1 pv < item0 item - cid then prev else Some item)
               | None \<Rightarrow> Some (Some item))
            else if same_prev then Some prev
            else if same_cur then Some (Some item)
            else Some None)
      else nearest_scan cid (Some item) items)"

definition get_nearest_bfrange :: "bfitem list \<Rightarrow> int \<Rightarrow> bfitem option" where
  "get_nearest_bfrange bfranges cid =
     (case nearest_scan cid None bfranges of
        Some r \<Rightarrow> r
      | None \<Rightarrow>
          if bfranges \<noteq> [] \<and> is_same_charset cid (last bfranges)
          then Some (last bfranges) else None)"

text \<open>\<^verbatim>\<open>FileUnicodeMap.get_unichr\<close> returns the text and leaves the table extended;
  \<^verbatim>\<open>UnicodeMap.get_unichr\<close> raises \<^verbatim>\<open>KeyError\<close> for a CID that is not in the table.\<close>

definition get_unichr ::
  "(string \<Rightarrow> int list option) \<Rightarrow> table \<Rightarrow> bfitem list \<Rightarrow> int \<Rightarrow> pyerr + utext \<times> table" where
  "get_unichr glyphs t bfranges cid =
     (case (if t cid = None
            then (case get_nearest_bfrange bfranges cid of
                    Some item \<Rightarrow> add_cid2unichr glyphs t cid (PSInt (cid + item3 item))
                  | None \<Rightarrow> Inr t)
            else Inr t) of
        Inl err \<Rightarrow> Inl err
      | Inr t' \<Rightarrow>
          (case t' cid of
             Some u \<Rightarrow> Inr (u, t')
           | None \<Rightarrow> Inl KeyError))"

subsection \<open>The extrapolation lookup, in the words of its description\<close>

text \<open>
  The neighbours of a CID in the entry list: the successor is the first entry that starts
  above the CID, the predecessor is the entry just before it in the list (the last entry
  when there is no successor). A neighbour qualifies when it passes the same-block test.
  \<open>spec_nearest_bfrange\<close> picks the predecessor when both qualify and its end is strictly
  closer to the CID than the successor's start, the successor when both qualify otherwise,
  and the single qualifying neighbour if there is only one.
\<close>

definition successor_entry :: "bfitem list \<Rightarrow> int \<Rightarrow> bfitem option" where
  "successor_entry bfranges cid = find (\<lambda>item. cid < item0 item) bfranges"

definition predecessor_entry :: "bfitem list \<Rightarrow> int \<Rightarrow> bfitem option" where
  "predecessor_entry bfranges cid =
     (case takeWhile (\<lambda>item. \<not> cid < item0 item) bfranges of
        [] \<Rightarrow> None
      | x # xs \<Rightarrow> Some (last (x # xs)))"

definition qualifying :: "int \<Rightarrow> bfitem option \<Rightarrow> bfitem option" where
  "qualifying cid cand =
     (case cand of
        Some item \<Rightarrow> if is_same_charset cid item then Some item else None
      | None \<Rightarrow> None)"

definition choose_neighbour :: "int \<Rightarrow> bfitem option \<Rightarrow> bfitem option \<Rightarrow> bfitem option" where
  "choose_neighbour cid pred succ =
     (case (qualifying cid pred, qualifying cid succ) of
        (Some pv, Some sc) \<Rightarrow> Some (if cid - item1 pv < item0 sc - cid then pv else sc)
      | (Some pv, None) \<Rightarrow> Some pv
      | (None, Some sc) \<Rightarrow> Some sc
      | (None, None) \<Rightarrow> None)"

definition spec_nearest_bfrange :: "bfitem list \<Rightarrow> int \<Rightarrow> bfitem option" where
  "spec_nearest_bfrange bfranges cid =
     choose_neighbour cid (predecessor_entry bfranges cid) (successor_entry bfranges cid)"

subsection \<open>Inserting a list of codes\<close>


subsection \<open>The merge pass, in the words of its description\<close>

text \<open>
  An accepted entry is forward when its range does not run backwards and its base is a
  scalar of the basic plane, as every base inside a known block is.
\<close>

definition forward_entry :: "bfitem \<Rightarrow> bool" where
  "forward_entry x = (item0 x \<le> item1 x \<and> 0 \<le> item2 x \<and> item2 x \<le> 0xFFFF)"

text \<open>
  Two consecutive entries with the same offset (base minus start) collapse into one entry
  that starts where the earlier starts and ends where the later ends; \<open>collapse\<close> does
  this along a list sorted by start. \<open>back_fill\<close> enters \<open>cid + off\<close> for the CIDs from
  \<open>lo\<close> to \<open>hi\<close>, and \<open>backfilled\<close> does so for the gap of every collapsing pair.
\<close>

fun collapse :: "bfitem list \<Rightarrow> bfitem list" where
  "collapse (a # b # rest) =
     (if item2 b - item0 b = item2 a - item0 a
      then collapse ((item0 a, item1 b, item2 a, item2 b - item0 b) # rest)
      else a # collapse (b # rest))"
| "collapse [a] = [a]"
| "collapse [] = []"

definition back_fill :: "table \<Rightarrow> int \<Rightarrow> int \<Rightarrow> int \<Rightarrow> table" where
  "back_fill t lo hi off = (\<lambda>i. if lo \<le> i \<and> i \<le> hi then Some (Unichr (i + off)) else t i)"

fun backfilled :: "table \<Rightarrow> bfitem list \<Rightarrow> table" where
  "backfilled t (a # b # rest) =
     (if item2 b - item0 b = item2 a - item0 a
      then backfilled (back_fill t (item1 a + 1) (item0 b - 1) (item2 b - item0 b))
             ((item0 a, item1 b, item2 a, item2 b - item0 b) # rest)
      else backfilled t (b # rest))"
| "backfilled t [a] = t"
| "backfilled t [] = t"

text \<open>The Unicode interval of \<open>r\<close> lies inside that of \<open>item\<close>: the test of
  \<^verbatim>\<open>is_subset_of_ranges\<close>.\<close>

definition contained_in :: "bfitem \<Rightarrow> bfitem \<Rightarrow> bool" where
  "contained_in r item =
     (item2 r \<ge> item2 item
      \<and> item2 r + item1 r - item0 r \<le> item2 item + item1 item - item0 item)"

subsection \<open>The operations that fill the trie\<close>









subsection \<open>The fixup pass, in the words of its description\<close>

text \<open>
  The merge pass sorts by start and collapses. Subset elimination keeps the merged
  entries whose Unicode interval is not contained in that of a different merged entry.
  The final entry list is the merge pass over what is kept.
\<close>

definition merge_pass :: "bfitem list \<Rightarrow> bfitem list" where
  "merge_pass bfranges = collapse (sort_key item0 bfranges)"

definition survivors :: "bfitem list \<Rightarrow> bfitem list" where
  "survivors merged =
     filter (\<lambda>r. \<not> list_ex (\<lambda>item. item \<noteq> r \<and> contained_in r item) merged) merged"

definition final_entries :: "bfitem list \<Rightarrow> bfitem list" where
  "final_entries accepted = merge_pass (survivors (merge_pass accepted))"

section \<open>Properties\<close>

subsection \<open>Decoding with the trie\<close>

text \<open>
  C8. \<^verbatim>\<open>CMap.decode\<close> cannot raise: it is a total function of the trie and the byte
  string, and as a method it always returns. Byte by byte it behaves as follows, where
  \<open>decode_state\<close> is the dictionary the walk stands on: a byte with no edge out of that
  dictionary emits nothing and puts the walk back at the root; a byte that leads to a CID
  leaf emits that CID and puts the walk back at the root; a byte that leads to a
  dictionary emits nothing and moves the walk there.
\<close>

theorem CMap_decode_byte_by_byte:
  "decode (FileCMap code2cid) (code @ [c]) =
     Inr (CMap_decode code2cid code @
          (case decode_state code2cid code2cid code c of
             Some (Leaf cid) \<Rightarrow> [cid] | Some (Node d') \<Rightarrow> [] | None \<Rightarrow> []))
   \<and> decode_state code2cid code2cid (code @ [c]) =
       (case decode_state code2cid code2cid code c of
          Some (Leaf cid) \<Rightarrow> code2cid | Some (Node d') \<Rightarrow> d' | None \<Rightarrow> code2cid)"
proof -
  have "decode_loop root d (code @ [c]) =
          decode_loop root d code @
            (case decode_state root d code c of
               Some (Leaf cid) \<Rightarrow> [cid] | Some (Node d') \<Rightarrow> [] | None \<Rightarrow> [])
        \<and> decode_state root d (code @ [c]) =
            (case decode_state root d code c of
               Some (Leaf cid) \<Rightarrow> root | Some (Node d') \<Rightarrow> d' | None \<Rightarrow> root)"
    for root d
    by (induction code arbitrary: d) (auto split: option.splits trie.splits)
  then show ?thesis
    by (simp add: CMap_decode_def)
qed

subsection \<open>The identity map\<close>

text \<open>
  C3. \<^verbatim>\<open>get_cmap("Identity-H")\<close> returns the identity store without consulting the cache
  or the loader. On the three bytes \<open>00 01 02\<close> its \<^verbatim>\<open>decode\<close> does not return the one
  value \<open>0x0001\<close> with the last byte dropped: \<^verbatim>\<open>struct.unpack\<close> is given a format for
  one value and a string of three bytes, and raises.
\<close>

theorem Identity_decode_three_bytes:
  "get_cmap load_data cache ''Identity-H'' = (Inr (IdentityCMap 0), cache)
   \<and> decode (IdentityCMap 0) [0x00, 0x01, 0x02] = Inl StructError"
  by (simp add: get_cmap_def IdentityCMap_decode_def struct_unpack_H_def)

text \<open>With an even number of bytes, or with a single byte, the method returns.\<close>

lemma Identity_decode_even:
  "even (length code) \<Longrightarrow> decode (IdentityCMap wmode) code = Inr (be16_values code)"
proof -
  assume ev: "even (length code)"
  have nil: "length code div 2 = 0 \<Longrightarrow> code = []"
    using ev by (cases code) auto
  show ?thesis
    using ev nil by (auto simp: IdentityCMap_decode_def struct_unpack_H_def Let_def)
qed

lemma Identity_decode_single: "decode (IdentityCMap wmode) [b] = Inr []"
  by (simp add: IdentityCMap_decode_def)

subsection \<open>Prefix conflicts on insertion\<close>

text \<open>
  C9. When a \<^verbatim>\<open>FileCMap\<close> holds a CID leaf at the end of the path of a code \<open>c\<close>,
  \<^verbatim>\<open>add_code2cid\<close> with a code that extends \<open>c\<close> by at least one byte raises
  \<^verbatim>\<open>TypeError\<close>: nothing is overwritten and nothing is skipped.
\<close>

theorem add_code2cid_prefix_conflict:
  "code_value d c = Some (Leaf n) \<Longrightarrow> ys \<noteq> [] \<Longrightarrow>
     cmap_add_code2cid (FileCMap d) (c @ ys) cid = Inl TypeError"
proof -
  assume leaf: "code_value d c = Some (Leaf n)" and ne: "ys \<noteq> []"
  from ne obtain y ys' where ys: "ys = y # ys'"
    by (cases ys) auto
  from leaf have "add_code2cid d (c @ y # ys') cid = Inl TypeError"
  proof (induction d c rule: code_value.induct)
    case (1 d)
    then show ?case by simp
  next
    case (2 d c)
    then show ?case by simp
  next
    case (3 d c c' code)
    then show ?case by (auto split: option.splits trie.splits)
  qed
  with ys show ?thesis by simp
qed

theorem add_code2cid_prefix_conflict_witness:
  "code_value (Map.empty(0x81 \<mapsto> Leaf 7)) [0x81] = Some (Leaf 7) \<and> [0x40] \<noteq> ([] :: byte list)
   \<and> cmap_add_code2cid (FileCMap (Map.empty(0x81 \<mapsto> Leaf 7))) ([0x81] @ [0x40]) 9
       = Inl TypeError"
proof -
  have h: "code_value (Map.empty(0x81 \<mapsto> Leaf 7)) [0x81] = Some (Leaf 7)"
    by simp
  have ne: "[0x40] \<noteq> ([] :: byte list)"
    by simp
  from add_code2cid_prefix_conflict [OF h ne, of 9] h ne show ?thesis
    by blast
qed

subsection \<open>Merging tries\<close>

lemma installed_id: "installed v = v"
proof (induction v)
  case (Leaf x)
  show ?case by simp
next
  case (Node s)
  have "map_option installed (s k) = s k" for k
  proof (cases "s k")
    case None
    then show ?thesis by simp
  next
    case (Some z)
    then have "Some z \<in> range s" by (metis rangeI)
    then have "installed z = z" using Node by simp
    with Some show ?thesis by simp
  qed
  then show ?case by simp
qed

text \<open>The dictionary installed for a source dictionary is the one \<^verbatim>\<open>copy({}, v)\<close> fills.\<close>

lemma installed_Node: "installed (Node s) = Node (copy Map.empty s)"
  by (auto simp: copy_def fun_eq_iff split: option.splits)

lemma copy_map_add: "copy dst src = dst ++ src"
  by (auto simp: copy_def map_add_def installed_id fun_eq_iff split: option.splits)

text \<open>
  C7. \<^verbatim>\<open>use_cmap\<close> on a trie-based store, given a trie-based store: the result is the
  destination dictionary overridden by the source dictionary. At a key of the source the
  destination has exactly the source's value, whatever it held there before; at any other
  key it has what it had.
\<close>

theorem use_cmap_overrides:
  "use_cmap (FileCMap dst) (PyCMap src) = Inr (FileCMap (dst ++ src))
   \<and> use_cmap (FileCMap dst) (FileCMap src) = Inr (FileCMap (dst ++ src))"
  by (simp add: copy_map_add)

subsection \<open>The Unicode block table\<close>

lemma charset_lookup_Some:
  "charset_lookup xs c = Some it \<Longrightarrow> it \<in> set xs \<and> fst it \<le> c \<and> c \<le> snd it"
  by (induction xs) (auto split: if_splits)

lemma charset_map_bounds: "\<forall>it \<in> set unicode_charset_map. 0 \<le> fst it \<and> snd it \<le> 0xFFFF"
  by (simp add: unicode_charset_map_def)

lemma charset_entry_range:
  assumes "get_unicode_charset_entry c = Some it"
  shows "0 \<le> c \<and> c \<le> 0xFFFF \<and> fst it \<le> c \<and> c \<le> snd it"
proof -
  from assms have a: "it \<in> set unicode_charset_map \<and> fst it \<le> c \<and> c \<le> snd it"
    unfolding get_unicode_charset_entry_def by (rule charset_lookup_Some)
  with charset_map_bounds have "0 \<le> fst it \<and> snd it \<le> 0xFFFF" by blast
  with a show ?thesis by linarith
qed

subsection \<open>Admission of a base-form bfrange group\<close>

lemma length_py_suffix4: "length (py_suffix 4 s) \<le> 4"
  by (simp add: py_suffix_def)

lemma nunpack_suffix4: "nunpack (py_suffix 4 code) = Inr (be_value (py_suffix 4 code))"
  by (simp add: nunpack_def length_py_suffix4)

lemma xrange_1: "xrange 1 = [0]"
  by (simp add: xrange_def)

text \<open>A range from CID 0 to CID 0 with its base in a known block is admitted with end 0.\<close>

lemma verify_char_set_zero_range:
  "get_unicode_charset_entry base = Some item \<Longrightarrow> verify_char_set 0 0 base = Some 0"
  using charset_entry_range [of base item] by (auto simp: verify_char_set_def)

text \<open>
  C10. A base-form group \<open>(s, e, code)\<close> whose admission check answers the end CID 0 is
  recorded whole in the dropped list, with the end it asked for; the store and the list
  of accepted entries stay as they were. The range from CID 0 to CID 0 with a base in a
  known block is such a group (\<open>verify_char_set_zero_range\<close>).
\<close>

theorem endbfrange_end_zero_is_dropped:
  assumes "length s = length e" and "nunpack s = Inr s1" and "nunpack e = Inr e1"
      and "verify_char_set s1 e1 (be_value (py_suffix 4 code)) = Some 0"
  shows "bfrange_group glyphs (PSStr s, PSStr e, PSStr code) p =
           Inr (p\<lparr>drop_bfrange_items := drop_bfrange_items p @
                 [(s1, e1, be_value (py_suffix 4 code), be_value (py_suffix 4 code) - s1)]\<rparr>)"
  using assms by (simp add: bfrange_group_def bfrange_base_form_def nunpack_suffix4)

theorem endbfrange_end_zero_is_dropped_witness:
  "bfrange_group Map.empty (PSStr [0x00, 0x00], PSStr [0x00, 0x00], PSStr [0x00, 0x41])
     \<lparr>cmap = FileUnicodeMap Map.empty [], cmap_bfrange_items = [], drop_bfrange_items = []\<rparr>
   = Inr \<lparr>cmap = FileUnicodeMap Map.empty [], cmap_bfrange_items = [],
          drop_bfrange_items = [(0, 0, 0x41, 0x41)]\<rparr>"
proof -
  have b: "be_value (py_suffix 4 [0x00, 0x41 :: byte]) = 0x41"
    by (simp add: be_value_def py_suffix_def)
  have n: "nunpack [0x00, 0x00] = Inr 0"
    by (simp add: nunpack_def be_value_def)
  have "get_unicode_charset_entry 0x41 = Some (0x00, 0x7F)"
    by (simp add: get_unicode_charset_entry_def unicode_charset_map_def)
  then have v: "verify_char_set 0 0 (be_value (py_suffix 4 [0x00, 0x41 :: byte])) = Some 0"
    unfolding b by (rule verify_char_set_zero_range)
  show ?thesis
    using endbfrange_end_zero_is_dropped [OF _ n n v, of Map.empty
        "\<lparr>cmap = FileUnicodeMap Map.empty [], cmap_bfrange_items = [], drop_bfrange_items = []\<rparr>"]
    by (simp add: b)
qed

text \<open>
  C1, as the code has it. A base-form group whose base lies in a known block, whose
  range would run past the upper bound of that block, and whose start CID is not 0:
  the admission check answers the start CID. The store receives the mapping of the start
  CID and no other, the entry \<open>(start, start, base, base - start)\<close> joins the accepted
  list, and the dropped list is left as it was.
\<close>

theorem endbfrange_crossing_keeps_start_only:
  assumes "length s = length e" and "nunpack s = Inr s1" and "nunpack e = Inr e1"
      and "get_unicode_charset_entry (be_value (py_suffix 4 code)) = Some item"
      and "snd item - be_value (py_suffix 4 code) + s1 < e1"
      and "s1 \<noteq> 0"
      and "cmap p = FileUnicodeMap t bs"
  shows "\<exists>x. packed_code (py_all_but_last4 code) (length (py_suffix 4 code))
                (be_value (py_suffix 4 code)) = Inr x
           \<and> bfrange_group glyphs (PSStr s, PSStr e, PSStr code) p =
               Inr (p\<lparr>cmap := FileUnicodeMap (t(s1 \<mapsto> Utf16be x)) bs,
                      cmap_bfrange_items := cmap_bfrange_items p @
                        [(s1, s1, be_value (py_suffix 4 code),
                          be_value (py_suffix 4 code) - s1)]\<rparr>)"
proof -
  let ?base = "be_value (py_suffix 4 code)"
  from assms(4) have r: "0 \<le> ?base \<and> ?base \<le> 0xFFFF"
    using charset_entry_range by blast
  then obtain bs4 where pk: "struct_pack_L ?base = Inr bs4"
    by (auto simp: struct_pack_L_def)
  have v: "verify_char_set s1 e1 ?base = Some s1"
    using assms(4,5) by (simp add: verify_char_set_def)
  show ?thesis
    using assms(1,2,3,6,7) v pk
    by (simp add: bfrange_group_def bfrange_base_form_def nunpack_suffix4 xrange_1
        packed_code_def)
qed

text \<open>
  The claim C1 itself fails on the group \<open><0001> <0005> <007E>\<close>. The base \<open>0x7E\<close> and
  the next scalar \<open>0x7F\<close> lie in the first block, so the last CID whose scalar stays in
  the block is 2. The handler installs CID 1 only, accepts \<open>(1, 1, 0x7E, 0x7D)\<close>, and
  records nothing as dropped.
\<close>

theorem endbfrange_crossing_counterexample:
  "get_unicode_charset_entry 0x7F = Some (0x00, 0x7F)
   \<and> do_ENDBFRANGE Map.empty
        \<lparr>cmap = FileUnicodeMap Map.empty [], cmap_bfrange_items = [], drop_bfrange_items = []\<rparr>
        [PSStr [0x00, 0x01], PSStr [0x00, 0x05], PSStr [0x00, 0x7E]]
     = Inr \<lparr>cmap = FileUnicodeMap (Map.empty(1 \<mapsto> Utf16be [0x00, 0x7E])) [],
            cmap_bfrange_items = [(1, 1, 0x7E, 0x7D)], drop_bfrange_items = []\<rparr>"
  by (simp add: get_unicode_charset_entry_def unicode_charset_map_def do_ENDBFRANGE_def
      bfrange_group_def bfrange_base_form_def nunpack_def be_value_def py_suffix_def
      py_all_but_last4_def verify_char_set_def xrange_1 packed_code_def struct_pack_L_def be_bytes4_def)

theorem endbfrange_crossing_keeps_start_only_witness:
  "\<exists>x. packed_code (py_all_but_last4 [0x00, 0x7E]) (length (py_suffix 4 [0x00, 0x7E :: byte]))
          (be_value (py_suffix 4 [0x00, 0x7E])) = Inr x
     \<and> bfrange_group Map.empty (PSStr [0x00, 0x01], PSStr [0x00, 0x05], PSStr [0x00, 0x7E])
         \<lparr>cmap = FileUnicodeMap Map.empty [], cmap_bfrange_items = [],
          drop_bfrange_items = []\<rparr>
       = Inr \<lparr>cmap = FileUnicodeMap (Map.empty(1 \<mapsto> Utf16be x)) [],
              cmap_bfrange_items = [(1, 1, 0x7E, 0x7D)], drop_bfrange_items = []\<rparr>"
proof -
  have b: "be_value (py_suffix 4 [0x00, 0x7E :: byte]) = 0x7E"
    by (simp add: be_value_def py_suffix_def)
  have s: "nunpack [0x00, 0x01] = Inr 1" and e: "nunpack [0x00, 0x05] = Inr 5"
    by (simp_all add: nunpack_def be_value_def)
  have c: "get_unicode_charset_entry (be_value (py_suffix 4 [0x00, 0x7E :: byte]))
             = Some (0x00, 0x7F)"
    unfolding b by (simp add: get_unicode_charset_entry_def unicode_charset_map_def)
  have x: "snd (0x00 :: int, 0x7F :: int) - be_value (py_suffix 4 [0x00, 0x7E :: byte]) + 1 < 5"
    unfolding b by simp
  have p: "cmap \<lparr>cmap = FileUnicodeMap Map.empty [], cmap_bfrange_items = [],
                 drop_bfrange_items = []\<rparr> = FileUnicodeMap Map.empty []"
    by simp
  show ?thesis
    using endbfrange_crossing_keeps_start_only [OF _ s e c x _ p, of Map.empty]
    by (simp add: b)
qed

subsection \<open>Extrapolation\<close>

lemma nearest_scan_eq:
  "nearest_scan cid prev xs =
     (case find (\<lambda>item. cid < item0 item) xs of
        None \<Rightarrow> None
      | Some sc \<Rightarrow>
          Some (choose_neighbour cid
                  (case takeWhile (\<lambda>item. \<not> cid < item0 item) xs of
                     [] \<Rightarrow> prev | y # ys \<Rightarrow> Some (last (y # ys))) (Some sc)))"
proof (induction xs arbitrary: prev)
  case Nil
  show ?case by simp
next
  case (Cons x xs)
  show ?case
  proof (cases "cid < item0 x")
    case True
    then show ?thesis
      by (auto simp: choose_neighbour_def qualifying_def Let_def split: option.splits)
  next
    case False
    then show ?thesis
      using Cons [of "Some x"]
      by (auto split: option.splits list.splits)
  qed
qed

lemma find_None_takeWhile: "find P xs = None \<Longrightarrow> takeWhile (\<lambda>x. \<not> P x) xs = xs"
  by (induction xs) (auto split: if_splits)

text \<open>The search of the source picks the entry that the description picks.\<close>

lemma get_nearest_is_spec:
  "get_nearest_bfrange bfranges cid = spec_nearest_bfrange bfranges cid"
proof (cases "find (\<lambda>item. cid < item0 item) bfranges")
  case None
  then have tw: "takeWhile (\<lambda>item. \<not> cid < item0 item) bfranges = bfranges"
    by (rule find_None_takeWhile)
  show ?thesis
    using None tw
    by (cases bfranges)
       (auto simp: get_nearest_bfrange_def spec_nearest_bfrange_def nearest_scan_eq
          successor_entry_def predecessor_entry_def qualifying_def choose_neighbour_def)
next
  case (Some sc)
  then show ?thesis
    by (simp add: get_nearest_bfrange_def spec_nearest_bfrange_def nearest_scan_eq
          successor_entry_def predecessor_entry_def)
qed

lemma spec_nearest_qualifies:
  "spec_nearest_bfrange bfranges cid = Some item \<Longrightarrow> is_same_charset cid item"
  by (auto simp: spec_nearest_bfrange_def choose_neighbour_def qualifying_def
      split: option.splits if_splits)

lemma same_charset_unichr:
  "is_same_charset cid item \<Longrightarrow> unichr (cid + item3 item) = Inr (Unichr (cid + item3 item))"
  using charset_entry_range [of "cid + item3 item"]
  by (auto simp: is_same_charset_def unichr_def split: option.splits)

text \<open>
  C4. For a CID that the table does not hold, \<^verbatim>\<open>get_unichr\<close> takes the neighbour that
  \<open>spec_nearest_bfrange\<close> picks among the predecessor and the successor that pass the
  same-block test, returns the scalar \<open>cid + offset\<close> of that entry and leaves it in the
  table under the CID; when neither neighbour qualifies it raises \<^verbatim>\<open>KeyError\<close>, the
  failure of the lookup, and the table is as before.
\<close>

theorem get_unichr_extrapolates:
  assumes "t cid = None"
  shows "get_unichr glyphs t bfranges cid =
           (case spec_nearest_bfrange bfranges cid of
              Some item \<Rightarrow>
                Inr (Unichr (cid + item3 item), t(cid \<mapsto> Unichr (cid + item3 item)))
            | None \<Rightarrow> Inl KeyError)"
proof (cases "spec_nearest_bfrange bfranges cid")
  case None
  with assms show ?thesis
    by (simp add: get_unichr_def get_nearest_is_spec)
next
  case (Some item)
  then have "unichr (cid + item3 item) = Inr (Unichr (cid + item3 item))"
    using spec_nearest_qualifies same_charset_unichr by blast
  with assms Some show ?thesis
    by (simp add: get_unichr_def get_nearest_is_spec)
qed

theorem get_unichr_extrapolates_witness:
  "(Map.empty :: table) 6 = None
   \<and> get_unichr Map.empty Map.empty [(0, 4, 0x41, 0x41), (10, 14, 0x4B, 0x41)] 6
       = Inr (Unichr 0x47, Map.empty(6 \<mapsto> Unichr 0x47))
   \<and> get_unichr Map.empty Map.empty [(0, 4, 0x41, 0x41), (10, 14, 0x4B, 0x41)] 0x100
       = Inl KeyError"
proof -
  have h: "(Map.empty :: table) 6 = None" and h': "(Map.empty :: table) 0x100 = None"
    by simp_all
  have s: "spec_nearest_bfrange [(0, 4, 0x41, 0x41), (10, 14, 0x4B, 0x41)] 6
             = Some (0, 4, 0x41, 0x41)"
    by (simp add: spec_nearest_bfrange_def choose_neighbour_def qualifying_def
        predecessor_entry_def successor_entry_def is_same_charset_def
        get_unicode_charset_entry_def unicode_charset_map_def)
  have s': "spec_nearest_bfrange [(0, 4, 0x41, 0x41), (10, 14, 0x4B, 0x41)] 0x100 = None"
    by (simp add: spec_nearest_bfrange_def choose_neighbour_def qualifying_def
        predecessor_entry_def successor_entry_def is_same_charset_def
        get_unicode_charset_entry_def unicode_charset_map_def)
  show ?thesis
    using get_unichr_extrapolates [OF h, of Map.empty
            "[(0, 4, 0x41, 0x41), (10, 14, 0x4B, 0x41)]"]
          get_unichr_extrapolates [OF h', of Map.empty
            "[(0, 4, 0x41, 0x41), (10, 14, 0x4B, 0x41)]"] s s'
    by simp
qed

subsection \<open>Insertion and decoding\<close>
































text \<open>With two strings, \<^verbatim>\<open>endcidchar\<close> takes the second as the code and the first as the
  CID.\<close>

lemma endcidchar_operand_order:
  "\<exists>p'. do_ENDCIDCHAR
           \<lparr>cmap = FileCMap Map.empty, cmap_bfrange_items = [], drop_bfrange_items = []\<rparr>
           [PSStr [0x81, 0x40], PSStr [0x02, 0x79]] = Inr p'
        \<and> decode (cmap p') [0x81, 0x40] = Inr []
        \<and> decode (cmap p') [0x02, 0x79] = Inr [0x8140]"
  by (simp add: do_ENDCIDCHAR_def cidchar_pair_def CMap_decode_def nunpack_def be_value_def)

subsection \<open>The merge pass\<close>

text \<open>
  On forward entries \<^verbatim>\<open>fill_cmap_by_ranges\<close> raises nothing: every scalar it enters lies
  between two bases. Its list is the collapsed sorted list and its table is the
  back-filled one (\<open>fill_ok\<close>).
\<close>

lemma gap_fold:
  "\<forall>i \<in> set is. 0 \<le> i + off \<and> i + off \<le> 0x10FFFF \<Longrightarrow>
     for_each (\<lambda>i cm'. cmap_add_cid2unichr glyphs cm' i (PSInt (i + off))) is
       (FileUnicodeMap t bs)
     = Inr (FileUnicodeMap (foldl (\<lambda>t' i. t'(i \<mapsto> Unichr (i + off))) t is) bs)"
  by (induction "is" arbitrary: t) (auto simp: unichr_def)

lemma foldl_upd_at:
  "foldl (\<lambda>t' i. t'(i \<mapsto> Unichr (i + off))) t is j =
     (if j \<in> set is then Some (Unichr (j + off)) else t j)"
  by (induction "is" arbitrary: t) auto

lemma gap_fill:
  assumes "\<forall>i. lo \<le> i \<and> i \<le> hi \<longrightarrow> 0 \<le> i + off \<and> i + off \<le> 0x10FFFF"
  shows "for_each (\<lambda>i cm'. cmap_add_cid2unichr glyphs cm' i (PSInt (i + off))) [lo..hi]
           (FileUnicodeMap t bs)
         = Inr (FileUnicodeMap (back_fill t lo hi off) bs)"
proof -
  have "foldl (\<lambda>t' i. t'(i \<mapsto> Unichr (i + off))) t [lo..hi] = back_fill t lo hi off"
    by (rule ext) (simp add: foldl_upd_at back_fill_def)
  moreover have "\<forall>i \<in> set [lo..hi]. 0 \<le> i + off \<and> i + off \<le> 0x10FFFF"
    using assms by simp
  ultimately show ?thesis
    using gap_fold [of "[lo..hi]" off glyphs t bs] by simp
qed

lemma fill_loop:
  assumes "sorted (map item0 (lm # ys))"
      and "\<forall>x \<in> set (lm # ys). forward_entry x"
      and "item1 pv = item1 lm"
      and "item2 pv - item0 pv = item2 lm - item0 lm"
  shows "\<exists>res' lm' pv'.
           for_each (fill_step glyphs True) ys ((res, Some lm, Some pv), FileUnicodeMap t bs)
             = Inr ((res', Some lm', Some pv'), FileUnicodeMap (backfilled t (lm # ys)) bs)
           \<and> res' @ [lm'] = res @ collapse (lm # ys)"
  using assms
proof (induction ys arbitrary: res lm pv t)
  case Nil
  show ?case
    by (rule exI [of _ res], rule exI [of _ lm], rule exI [of _ pv]) simp
next
  case (Cons y ys)
  have fy: "forward_entry y" and flm: "forward_entry lm" using Cons.prems(2) by simp_all
  have le: "item0 lm \<le> item0 y" using Cons.prems(1) by simp
  show ?case
  proof (cases "item2 y - item0 y = item2 lm - item0 lm")
    case True
    let ?off = "item2 y - item0 y"
    let ?lm = "(item0 lm, item1 y, item2 lm, ?off)"
    let ?t = "back_fill t (item1 lm + 1) (item0 y - 1) ?off"
    have rng: "\<forall>i. item1 lm + 1 \<le> i \<and> i \<le> item0 y - 1 \<longrightarrow> 0 \<le> i + ?off \<and> i + ?off \<le> 0x10FFFF"
      using fy flm True by (auto simp: forward_entry_def)
    have gap: "for_each (\<lambda>i cm'. cmap_add_cid2unichr glyphs cm' i (PSInt (i + ?off)))
                 [item1 lm + 1 .. item0 y - 1] (FileUnicodeMap t bs)
               = Inr (FileUnicodeMap ?t bs)"
      using rng by (rule gap_fill)
    have step: "fill_step glyphs True y ((res, Some lm, Some pv), FileUnicodeMap t bs)
                  = Inr ((res, Some ?lm, Some y), FileUnicodeMap ?t bs)"
      using True Cons.prems(3,4) gap by (simp add: fill_step_def)
    have s': "sorted (map item0 (?lm # ys))" using Cons.prems(1) by simp
    have f': "\<forall>x \<in> set (?lm # ys). forward_entry x"
      using Cons.prems(2) le fy flm by (auto simp: forward_entry_def)
    have e': "item1 y = item1 ?lm" by simp
    have o': "item2 y - item0 y = item2 ?lm - item0 ?lm" using True by simp
    from Cons.IH [OF s' f' e' o', of res ?t]
    obtain res' lm' pv' where
      run: "for_each (fill_step glyphs True) ys ((res, Some ?lm, Some y), FileUnicodeMap ?t bs)
             = Inr ((res', Some lm', Some pv'), FileUnicodeMap (backfilled ?t (?lm # ys)) bs)"
      and lst: "res' @ [lm'] = res @ collapse (?lm # ys)"
      by blast
    have "for_each (fill_step glyphs True) (y # ys) ((res, Some lm, Some pv), FileUnicodeMap t bs)
             = Inr ((res', Some lm', Some pv'), FileUnicodeMap (backfilled t (lm # y # ys)) bs)
           \<and> res' @ [lm'] = res @ collapse (lm # y # ys)"
      using step run lst True by simp
    then show ?thesis by blast
  next
    case False
    have step: "fill_step glyphs True y ((res, Some lm, Some pv), FileUnicodeMap t bs)
                  = Inr ((res @ [lm], Some y, Some y), FileUnicodeMap t bs)"
      using False Cons.prems(4) by (simp add: fill_step_def)
    have s': "sorted (map item0 (y # ys))" using Cons.prems(1) by simp
    have f': "\<forall>x \<in> set (y # ys). forward_entry x" using Cons.prems(2) by simp
    from Cons.IH [OF s' f' refl refl, of "res @ [lm]" t]
    obtain res' lm' pv' where
      run: "for_each (fill_step glyphs True) ys ((res @ [lm], Some y, Some y), FileUnicodeMap t bs)
             = Inr ((res', Some lm', Some pv'), FileUnicodeMap (backfilled t (y # ys)) bs)"
      and lst: "res' @ [lm'] = (res @ [lm]) @ collapse (y # ys)"
      by blast
    have "for_each (fill_step glyphs True) (y # ys) ((res, Some lm, Some pv), FileUnicodeMap t bs)
             = Inr ((res', Some lm', Some pv'), FileUnicodeMap (backfilled t (lm # y # ys)) bs)
           \<and> res' @ [lm'] = res @ collapse (lm # y # ys)"
      using step run lst False by simp
    then show ?thesis by blast
  qed
qed

lemma fill_sorted_ok:
  assumes "sorted (map item0 xs)" and "\<forall>x \<in> set xs. forward_entry x"
  shows "for_each (fill_step glyphs True) xs (([], None, None), FileUnicodeMap t bs) = Inr (([], None, None), FileUnicodeMap t bs) \<and> xs = []
     \<or> (\<exists>res' lm' pv'. for_each (fill_step glyphs True) xs (([], None, None), FileUnicodeMap t bs)
             = Inr ((res', Some lm', Some pv'), FileUnicodeMap (backfilled t xs) bs)
           \<and> res' @ [lm'] = collapse xs)"
proof (cases xs)
  case Nil
  then show ?thesis by simp
next
  case (Cons y ys)
  have step: "fill_step glyphs True y (([], None, None), FileUnicodeMap t bs)
                = Inr (([], Some y, Some y), FileUnicodeMap t bs)"
    by (simp add: fill_step_def)
  from fill_loop [of y ys y glyphs "[]" t bs] assms Cons
  obtain res' lm' pv' where
    "for_each (fill_step glyphs True) ys (([], Some y, Some y), FileUnicodeMap t bs)
       = Inr ((res', Some lm', Some pv'), FileUnicodeMap (backfilled t (y # ys)) bs)"
    and "res' @ [lm'] = [] @ collapse (y # ys)"
    by blast
  with step Cons have
    "for_each (fill_step glyphs True) xs (([], None, None), FileUnicodeMap t bs)
       = Inr ((res', Some lm', Some pv'), FileUnicodeMap (backfilled t xs) bs)
     \<and> res' @ [lm'] = collapse xs"
    by simp
  then show ?thesis by blast
qed

lemma fill_ok:
  assumes "\<forall>x \<in> set xs. forward_entry x"
  shows "fill_cmap_by_ranges glyphs (FileUnicodeMap t bs) xs True
           = Inr (collapse (sort_key item0 xs),
                  FileUnicodeMap (backfilled t (sort_key item0 xs)) bs)"
proof -
  let ?ys = "sort_key item0 xs"
  have s: "sorted (map item0 ?ys)" by (rule sorted_sort_key)
  have f: "\<forall>x \<in> set ?ys. forward_entry x" using assms by simp
  from fill_sorted_ok [OF s f, of glyphs t bs] show ?thesis
  proof
    assume "for_each (fill_step glyphs True) ?ys (([], None, None), FileUnicodeMap t bs)
              = Inr (([], None, None), FileUnicodeMap t bs) \<and> ?ys = []"
    then show ?thesis by (simp add: fill_cmap_by_ranges_def)
  next
    assume "\<exists>res' lm' pv'. for_each (fill_step glyphs True) ?ys (([], None, None), FileUnicodeMap t bs)
             = Inr ((res', Some lm', Some pv'), FileUnicodeMap (backfilled t ?ys) bs)
           \<and> res' @ [lm'] = collapse ?ys"
    then show ?thesis by (auto simp: fill_cmap_by_ranges_def)
  qed
qed











text \<open>An accepted entry that runs backwards can make the back-fill raise: the gap then
  starts below the entry, at scalars below zero.\<close>

lemma merge_pass_backward_entry_raises:
  "fill_cmap_by_ranges Map.empty (FileUnicodeMap Map.empty [])
     [(100, 1, 5, - 95), (200, 200, 105, - 95)] True
   = Inl ValueError"
  by (simp add: fill_cmap_by_ranges_def fill_step_def unichr_def)

subsection \<open>The stored extrapolation index\<close>

lemma collapse_forward:
  "sorted (map item0 xs) \<Longrightarrow> \<forall>x \<in> set xs. forward_entry x \<Longrightarrow>
     \<forall>x \<in> set (collapse xs). forward_entry x"
proof (induction xs rule: collapse.induct)
  case (1 a b rest)
  show ?case
  proof (cases "item2 b - item0 b = item2 a - item0 a")
    case True
    let ?c = "(item0 a, item1 b, item2 a, item2 b - item0 b)"
    have "forward_entry ?c" using 1(3,4) by (auto simp: forward_entry_def)
    then have f: "\<forall>x \<in> set (?c # rest). forward_entry x" using 1(4) by simp
    have s: "sorted (map item0 (?c # rest))" using 1(3) by simp
    from 1(1) [OF True s f] True show ?thesis by simp
  next
    case False
    have s: "sorted (map item0 (b # rest))" using 1(3) by simp
    have f: "\<forall>x \<in> set (b # rest). forward_entry x" using 1(4) by simp
    from 1(2) [OF False s f] False 1(4) show ?thesis by simp
  qed
next
  case 3
  then show ?case by simp
next
  case (2 v)
  then show ?case by simp
qed

lemma collapse_length_le: "length (collapse xs) \<le> length xs"
  by (induction xs rule: collapse.induct) auto

lemma collapse_same_length: "length (collapse xs) = length xs \<Longrightarrow> collapse xs = xs"
proof (induction xs rule: collapse.induct)
  case (1 a b rest)
  show ?case
  proof (cases "item2 b - item0 b = item2 a - item0 a")
    case True
    have "length (collapse ((item0 a, item1 b, item2 a, item2 b - item0 b) # rest))
            \<le> length rest + 1"
      using collapse_length_le [of "(item0 a, item1 b, item2 a, item2 b - item0 b) # rest"]
      by simp
    with True 1(3) show ?thesis by simp
  next
    case False
    with 1(2,3) show ?thesis by simp
  qed
next
  case 3
  then show ?case by simp
next
  case (2 v)
  then show ?case by simp
qed

lemma is_subset_None_iff:
  "is_subset_of_ranges bfranges r = None
     \<longleftrightarrow> \<not> list_ex (\<lambda>item. item \<noteq> r \<and> contained_in r item) bfranges"
  by (induction bfranges) (auto simp: contained_in_def)

lemma filter_is_survivors:
  "filter (\<lambda>item. is_subset_of_ranges merged item = None) merged = survivors merged"
  by (simp add: survivors_def is_subset_None_iff)

lemma collapse_head:
  "\<exists>e d tl. collapse (b # rest) = (item0 b, e, item2 b, d) # tl"
proof (induction rest arbitrary: b)
  case Nil
  show ?case by (cases b) simp
next
  case (Cons y rest)
  show ?case
  proof (cases "item2 y - item0 y = item2 b - item0 b")
    case True
    from Cons [of "(item0 b, item1 y, item2 b, item2 y - item0 y)"] True
    show ?thesis by simp
  next
    case False
    then show ?thesis by (cases b) simp
  qed
qed

lemma collapse_idem: "collapse (collapse xs) = collapse xs"
proof (induction xs rule: collapse.induct)
  case (1 a b rest)
  show ?case
  proof (cases "item2 b - item0 b = item2 a - item0 a")
    case True
    with 1(1) show ?thesis by simp
  next
    case False
    obtain e d tl where h: "collapse (b # rest) = (item0 b, e, item2 b, d) # tl"
      using collapse_head by blast
    have "collapse (a # collapse (b # rest)) = a # collapse (collapse (b # rest))"
      using False by (simp add: h)
    with 1(2) [OF False] False show ?thesis by simp
  qed
next
  case (2 a)
  show ?case by simp
next
  case 3
  show ?case by simp
qed

lemma backfilled_collapsed: "backfilled t (collapse xs) = t"
proof (induction xs arbitrary: t rule: collapse.induct)
  case (1 a b rest)
  show ?case
  proof (cases "item2 b - item0 b = item2 a - item0 a")
    case True
    with 1(1) show ?thesis by simp
  next
    case False
    obtain e d tl where h: "collapse (b # rest) = (item0 b, e, item2 b, d) # tl"
      using collapse_head by blast
    have "backfilled t (a # collapse (b # rest)) = backfilled t (collapse (b # rest))"
      using False by (simp add: h)
    with 1(2) [OF False] False show ?thesis by simp
  qed
next
  case (2 a)
  show ?case by simp
next
  case 3
  show ?case by simp
qed

lemma collapse_starts: "item0 ` set (collapse xs) \<subseteq> item0 ` set xs"
  by (induction xs rule: collapse.induct) auto

lemma collapse_sorted: "sorted (map item0 xs) \<Longrightarrow> sorted (map item0 (collapse xs))"
proof (induction xs rule: collapse.induct)
  case (1 a b rest)
  show ?case
  proof (cases "item2 b - item0 b = item2 a - item0 a")
    case True
    have "sorted (map item0 ((item0 a, item1 b, item2 a, item2 b - item0 b) # rest))"
      using 1(3) by simp
    from 1(1) [OF True this] True show ?thesis by simp
  next
    case False
    have s: "sorted (map item0 (b # rest))" using 1(3) by simp
    have "\<forall>x \<in> set (collapse (b # rest)). item0 a \<le> item0 x"
    proof
      fix x assume "x \<in> set (collapse (b # rest))"
      then have "item0 x \<in> item0 ` set (b # rest)" using collapse_starts by blast
      then show "item0 a \<le> item0 x" using 1(3) by auto
    qed
    with 1(2) [OF False s] False show ?thesis by simp
  qed
next
  case (2 a)
  show ?case by simp
next
  case 3
  show ?case by simp
qed

lemma merge_pass_sorted: "sorted (map item0 (merge_pass xs))"
  unfolding merge_pass_def by (intro collapse_sorted sorted_sort_key)

lemma merge_pass_fixed: "merge_pass (merge_pass xs) = merge_pass xs"
proof -
  have "sort_key item0 (merge_pass xs) = merge_pass xs"
    using merge_pass_sorted by (rule sort_key_id_if_sorted)
  then show ?thesis by (simp add: merge_pass_def collapse_idem)
qed

lemma filter_same_length: "length (filter P xs) = length xs \<Longrightarrow> filter P xs = xs"
proof (induction xs)
  case Nil
  show ?case by simp
next
  case (Cons x xs)
  show ?case
  proof (cases "P x")
    case True
    with Cons show ?thesis by simp
  next
    case False
    have "length (filter P xs) \<le> length xs" by (rule length_filter_le)
    moreover from False Cons.prems have "length (filter P xs) = Suc (length xs)" by simp
    ultimately have False by linarith
    then show ?thesis ..
  qed
qed

lemma survivors_free:
  "\<forall>r \<in> set (survivors ms). \<forall>item \<in> set (survivors ms). item \<noteq> r \<longrightarrow> \<not> contained_in r item"
  by (auto simp: survivors_def list_ex_iff)

text \<open>
  C2, as the code has it. The store is a \<^verbatim>\<open>FileUnicodeMap\<close>, the accepted entries are
  forward, and the merge pass over them merges at least one pair. Then \<^verbatim>\<open>fixup_cmaps\<close>
  succeeds and empties the accepted list. The index it stores is the final entry list:
  the merge pass over the accepted entries, then subset elimination, then the merge pass
  over what is kept. The table it leaves is the table back-filled by these two passes.
  The stored index is sorted by start. If it is as long as the list that subset
  elimination kept (the second merge pass collapsed nothing), then no entry of the index
  has its Unicode interval contained in that of a different entry of the index.
\<close>

theorem fixup_stores_final_entries:
  assumes "cmap p = FileUnicodeMap t bs"
      and "\<forall>x \<in> set (cmap_bfrange_items p). forward_entry x"
      and "length (merge_pass (cmap_bfrange_items p)) \<noteq> length (cmap_bfrange_items p)"
  shows "fixup_cmaps glyphs p
           = Inr (p\<lparr>cmap := FileUnicodeMap
                             (backfilled (backfilled t (sort_key item0 (cmap_bfrange_items p)))
                                (sort_key item0 (survivors (merge_pass (cmap_bfrange_items p)))))
                             (final_entries (cmap_bfrange_items p)),
                    cmap_bfrange_items := []\<rparr>)
         \<and> sorted (map item0 (final_entries (cmap_bfrange_items p)))
         \<and> (length (final_entries (cmap_bfrange_items p))
               = length (survivors (merge_pass (cmap_bfrange_items p)))
             \<longrightarrow> (\<forall>r \<in> set (final_entries (cmap_bfrange_items p)).
                    \<forall>item \<in> set (final_entries (cmap_bfrange_items p)).
                      item \<noteq> r \<longrightarrow> \<not> contained_in r item))"
proof -
  let ?items = "cmap_bfrange_items p"
  let ?merged = "merge_pass ?items"
  let ?surv = "survivors ?merged"
  let ?t1 = "backfilled t (sort_key item0 ?items)"
  have ne: "?items \<noteq> []"
    using assms(3) by (auto simp: merge_pass_def)
  have first: "fill_cmap_by_ranges glyphs (cmap p) ?items True
                 = Inr (?merged, FileUnicodeMap ?t1 bs)"
    using fill_ok [OF assms(2), of glyphs t bs] assms(1) by (simp add: merge_pass_def)
  have "\<forall>x \<in> set (sort_key item0 ?items). forward_entry x" using assms(2) by simp
  then have fm: "\<forall>x \<in> set ?merged. forward_entry x"
    unfolding merge_pass_def by (intro collapse_forward sorted_sort_key)
  then have fs: "\<forall>x \<in> set ?surv. forward_entry x" by (simp add: survivors_def)
  have second: "fill_cmap_by_ranges glyphs (FileUnicodeMap ?t1 bs) ?surv True
                  = Inr (merge_pass ?surv,
                         FileUnicodeMap (backfilled ?t1 (sort_key item0 ?surv)) bs)"
    using fill_ok [OF fs, of glyphs ?t1 bs] by (simp add: merge_pass_def)
  have fin_sorted: "sorted (map item0 (final_entries ?items))"
    unfolding final_entries_def by (rule merge_pass_sorted)
  then have idx: "sort_key item0 (final_entries ?items) = final_entries ?items"
    by (rule sort_key_id_if_sorted)
  have run: "fixup_cmaps glyphs p
               = Inr (p\<lparr>cmap := FileUnicodeMap (backfilled ?t1 (sort_key item0 ?surv))
                                 (final_entries ?items),
                        cmap_bfrange_items := []\<rparr>)"
  proof (cases "length ?surv \<noteq> length ?merged")
    case True
    have "fixup_cmaps glyphs p
            = Inr (p\<lparr>cmap := FileUnicodeMap (backfilled ?t1 (sort_key item0 ?surv))
                              (sort_key item0 (merge_pass ?surv)),
                     cmap_bfrange_items := []\<rparr>)"
      using ne first assms(3) True second
      by (simp add: fixup_cmaps_def filter_is_survivors Let_def)
    with idx show ?thesis by (simp add: final_entries_def)
  next
    case False
    then have "length (filter (\<lambda>r. \<not> list_ex (\<lambda>item. item \<noteq> r \<and> contained_in r item) ?merged)
                 ?merged) = length ?merged"
      by (simp add: survivors_def)
    then have same: "?surv = ?merged"
      unfolding survivors_def by (rule filter_same_length)
    have srt: "sort_key item0 ?merged = ?merged"
      using merge_pass_sorted by (rule sort_key_id_if_sorted)
    have fe: "final_entries ?items = ?merged"
      by (simp add: final_entries_def same merge_pass_fixed)
    have tb: "backfilled ?t1 ?merged = ?t1"
      unfolding merge_pass_def by (rule backfilled_collapsed)
    have "fixup_cmaps glyphs p
            = Inr (p\<lparr>cmap := FileUnicodeMap ?t1 (sort_key item0 ?surv),
                     cmap_bfrange_items := []\<rparr>)"
      using ne first assms(3) False
      by (simp add: fixup_cmaps_def filter_is_survivors Let_def)
    then show ?thesis by (simp add: tb fe same srt)
  qed
  have free: "\<forall>r \<in> set (final_entries ?items). \<forall>item \<in> set (final_entries ?items).
                item \<noteq> r \<longrightarrow> \<not> contained_in r item"
    if "length (final_entries ?items) = length ?surv"
  proof -
    from that have "length (collapse (sort_key item0 ?surv)) = length (sort_key item0 ?surv)"
      by (simp add: final_entries_def merge_pass_def)
    then have "collapse (sort_key item0 ?surv) = sort_key item0 ?surv"
      by (rule collapse_same_length)
    then have "set (final_entries ?items) = set ?surv"
      by (simp add: final_entries_def merge_pass_def)
    then show ?thesis using survivors_free [of ?merged] by simp
  qed
  from run fin_sorted free show ?thesis by blast
qed


lemma fixup_example_passes:
  "merge_pass [(0, 4, 100, 100), (10, 14, 110, 100), (20, 21, 101, 81), (30, 31, 200, 170)]
     = [(0, 14, 100, 100), (20, 21, 101, 81), (30, 31, 200, 170)]"
  "survivors [(0, 14, 100, 100), (20, 21, 101, 81), (30, 31, 200, 170)]
     = [(0, 14, 100, 100), (30, 31, 200, 170)]"
  "merge_pass [(0, 14, 100, 100), (30, 31, 200, 170)]
     = [(0, 14, 100, 100), (30, 31, 200, 170)]"
  by (simp_all add: merge_pass_def survivors_def contained_in_def)

theorem fixup_stores_final_entries_witness:
  "fixup_cmaps Map.empty
     \<lparr>cmap = FileUnicodeMap Map.empty [],
      cmap_bfrange_items = [(0, 4, 100, 100), (10, 14, 110, 100), (20, 21, 101, 81),
                            (30, 31, 200, 170)],
      drop_bfrange_items = []\<rparr>
   = Inr \<lparr>cmap = FileUnicodeMap (back_fill Map.empty 5 9 100)
                     [(0, 14, 100, 100), (30, 31, 200, 170)],
          cmap_bfrange_items = [], drop_bfrange_items = []\<rparr>
   \<and> sorted (map item0 [(0, 14, 100, 100), (30, 31, 200, 170)])
   \<and> \<not> contained_in (0, 14, 100, 100) (30, 31, 200, 170)
   \<and> \<not> contained_in (30, 31, 200, 170) (0, 14, 100, 100)"
proof -
  let ?items = "[(0, 4, 100, 100), (10, 14, 110, 100), (20, 21, 101, 81), (30, 31, 200, 170)]
                  :: bfitem list"
  let ?p = "\<lparr>cmap = FileUnicodeMap Map.empty [], cmap_bfrange_items = ?items,
             drop_bfrange_items = []\<rparr>"
  have h1: "cmap ?p = FileUnicodeMap Map.empty []" by simp
  have h2: "\<forall>x \<in> set (cmap_bfrange_items ?p). forward_entry x"
    by (simp add: forward_entry_def)
  have h3: "length (merge_pass (cmap_bfrange_items ?p)) \<noteq> length (cmap_bfrange_items ?p)"
    by (simp add: fixup_example_passes)
  have fe: "final_entries ?items = [(0, 14, 100, 100), (30, 31, 200, 170)]"
    by (simp add: final_entries_def fixup_example_passes)
  have tb: "backfilled (backfilled Map.empty (sort_key item0 ?items))
              (sort_key item0 (survivors (merge_pass ?items)))
            = back_fill Map.empty 5 9 100"
    by (simp add: fixup_example_passes)
  from fixup_stores_final_entries [OF h1 h2 h3, of Map.empty]
  show ?thesis
    by (simp add: fe tb fixup_example_passes)
qed

text \<open>
  The claim C2 itself fails in both parts. The stream \<open><0001> <0002> <0041>\<close> yields one
  accepted entry; the merge pass returns a list of the same length and \<^verbatim>\<open>fixup_cmaps\<close>
  returns before it stores anything, so the index stays empty. And for the five accepted
  entries below the stored index is \<open>[(0, 14, 100, 100), (20, 22, 105, 85)]\<close>, where the
  interval 105 to 107 of the second entry lies inside the interval 100 to 114 of the
  first: the first entry arises in the second merge pass, after the containment test.
\<close>

theorem fixup_index_counterexample:
  "do_ENDBFRANGE Map.empty
     \<lparr>cmap = FileUnicodeMap Map.empty [], cmap_bfrange_items = [], drop_bfrange_items = []\<rparr>
     [PSStr [0x00, 0x01], PSStr [0x00, 0x02], PSStr [0x00, 0x41]]
   = Inr \<lparr>cmap = FileUnicodeMap (Map.empty(1 \<mapsto> Utf16be [0x00, 0x41],
                                              2 \<mapsto> Utf16be [0x00, 0x42])) [],
          cmap_bfrange_items = [(1, 2, 0x41, 0x40)], drop_bfrange_items = []\<rparr>
   \<and> fixup_cmaps Map.empty
       \<lparr>cmap = FileUnicodeMap (Map.empty(1 \<mapsto> Utf16be [0x00, 0x41],
                                          2 \<mapsto> Utf16be [0x00, 0x42])) [],
        cmap_bfrange_items = [(1, 2, 0x41, 0x40)], drop_bfrange_items = []\<rparr>
     = Inr \<lparr>cmap = FileUnicodeMap (Map.empty(1 \<mapsto> Utf16be [0x00, 0x41],
                                                2 \<mapsto> Utf16be [0x00, 0x42])) [],
            cmap_bfrange_items = [(1, 2, 0x41, 0x40)], drop_bfrange_items = []\<rparr>
   \<and> fixup_cmaps Map.empty
       \<lparr>cmap = FileUnicodeMap Map.empty [],
        cmap_bfrange_items = [(0, 4, 100, 100), (5, 6, 101, 96), (10, 14, 110, 100),
                              (20, 21, 105, 85), (22, 22, 107, 85)],
        drop_bfrange_items = []\<rparr>
     = Inr \<lparr>cmap = FileUnicodeMap (Map.empty(5 \<mapsto> Unichr 105, 6 \<mapsto> Unichr 106,
                         7 \<mapsto> Unichr 107, 8 \<mapsto> Unichr 108, 9 \<mapsto> Unichr 109))
                       [(0, 14, 100, 100), (20, 22, 105, 85)],
            cmap_bfrange_items = [], drop_bfrange_items = []\<rparr>
   \<and> contained_in (20, 22, 105, 85) (0, 14, 100, 100)"
proof -
  have x2: "xrange 2 = [0, 1]" by (simp add: xrange_def numeral_2_eq_2)
  have a: "do_ENDBFRANGE Map.empty
     \<lparr>cmap = FileUnicodeMap Map.empty [], cmap_bfrange_items = [], drop_bfrange_items = []\<rparr>
     [PSStr [0x00, 0x01], PSStr [0x00, 0x02], PSStr [0x00, 0x41]]
   = Inr \<lparr>cmap = FileUnicodeMap (Map.empty(1 \<mapsto> Utf16be [0x00, 0x41],
                                              2 \<mapsto> Utf16be [0x00, 0x42])) [],
          cmap_bfrange_items = [(1, 2, 0x41, 0x40)], drop_bfrange_items = []\<rparr>"
    by (simp add: get_unicode_charset_entry_def unicode_charset_map_def do_ENDBFRANGE_def
      bfrange_group_def bfrange_base_form_def nunpack_def be_value_def py_suffix_def
      py_all_but_last4_def verify_char_set_def x2 packed_code_def struct_pack_L_def be_bytes4_def)
  have b: "fixup_cmaps Map.empty
       \<lparr>cmap = FileUnicodeMap (Map.empty(1 \<mapsto> Utf16be [0x00, 0x41],
                                          2 \<mapsto> Utf16be [0x00, 0x42])) [],
        cmap_bfrange_items = [(1, 2, 0x41, 0x40)], drop_bfrange_items = []\<rparr>
     = Inr \<lparr>cmap = FileUnicodeMap (Map.empty(1 \<mapsto> Utf16be [0x00, 0x41],
                                                2 \<mapsto> Utf16be [0x00, 0x42])) [],
            cmap_bfrange_items = [(1, 2, 0x41, 0x40)], drop_bfrange_items = []\<rparr>"
    by (simp add: fixup_cmaps_def fill_cmap_by_ranges_def fill_step_def)
  have c: "fixup_cmaps Map.empty
       \<lparr>cmap = FileUnicodeMap Map.empty [],
        cmap_bfrange_items = [(0, 4, 100, 100), (5, 6, 101, 96), (10, 14, 110, 100),
                              (20, 21, 105, 85), (22, 22, 107, 85)],
        drop_bfrange_items = []\<rparr>
     = Inr \<lparr>cmap = FileUnicodeMap (Map.empty(5 \<mapsto> Unichr 105, 6 \<mapsto> Unichr 106,
                         7 \<mapsto> Unichr 107, 8 \<mapsto> Unichr 108, 9 \<mapsto> Unichr 109))
                       [(0, 14, 100, 100), (20, 22, 105, 85)],
            cmap_bfrange_items = [], drop_bfrange_items = []\<rparr>"
    by (simp add: fixup_cmaps_def fill_cmap_by_ranges_def fill_step_def unichr_def)
  have d: "contained_in (20, 22, 105, 85) (0, 14, 100, 100)"
    by (simp add: contained_in_def)
  from a b c d show ?thesis by blast
qed

end
